theory Spec2Isabelle
  imports Main
begin

section \<open>The kustomize deployer of skaffold (pkg/skaffold/deploy/kustomize.go)\<close>

subsection \<open>Errors\<close>

text \<open>
  A Go \<^verbatim>\<open>error\<close> is either an error raised by a collaborator (the operating system,
  the YAML decoder, a subprocess, kubectl) or one produced by \<^verbatim>\<open>errors.Wrap(err, msg)\<close> of
  github.com/pkg/errors, which keeps the cause and adds a message. A nil error is \<open>None\<close>.
\<close>

datatype error = Basic string | Wrapped error string

text \<open>\<^verbatim>\<open>errors.Wrap\<close>: nil stays nil, any other error is annotated with the message.\<close>

fun errors_Wrap :: "error option \<Rightarrow> string \<Rightarrow> error option" where
  "errors_Wrap None message = None"
| "errors_Wrap (Some err) message = Some (Wrapped err message)"

subsection \<open>Dependency resolution: \<^verbatim>\<open>dependenciesForKustomization\<close>\<close>

type_synonym path = string

text \<open>The anonymous struct the definition file is decoded into (lines 105-109).\<close>

record kustomization =
  Bases :: "string list"
  Resources :: "string list"
  Patches :: "string list"

text \<open>
  What the resolver reads from its surroundings, none of it code of this repository:
  \<^verbatim>\<open>filepath.Join\<close>, \<^verbatim>\<open>os.Open\<close> (the error, or the opened file \<open>'f\<close>) and the YAML decoder
  run on the opened file (the error, or the decoded struct). They are parameters of the
  model. The file system is only read, so it is a function and not a state.
\<close>

record 'f filesystem =
  filepath_Join :: "path \<Rightarrow> path \<Rightarrow> path"
  os_Open :: "path \<Rightarrow> error + 'f"
  yaml_Decode :: "'f \<Rightarrow> error + kustomization"

text \<open>
  The loops of lines 124-126 and 128-130: each entry, joined with the directory, is
  appended to \<open>deps\<close>.
\<close>

fun append_joined :: "'f filesystem \<Rightarrow> path \<Rightarrow> path list \<Rightarrow> string list \<Rightarrow> path list" where
  "append_joined fs dir deps [] = deps"
| "append_joined fs dir deps (entry # entries) =
     append_joined fs dir (deps @ [filepath_Join fs dir entry]) entries"

text \<open>
  The function calls itself for every base, and nothing bounds the depth of that
  recursion (bases may refer to each other in a cycle). The first argument is the number
  of nested calls the stack still has room for: with none left the call does not return,
  which is the value \<open>None\<close>. A call that returns gives Go's pair: the dependencies and
  the error (\<open>None\<close> for nil).

  \<open>bases_loop\<close> is the loop of lines 116-122 over the remaining bases, with the
  dependencies gathered so far.
\<close>

fun dependenciesForKustomization ::
    "nat \<Rightarrow> 'f filesystem \<Rightarrow> path \<Rightarrow> (path list \<times> error option) option"
  and bases_loop ::
    "nat \<Rightarrow> 'f filesystem \<Rightarrow> path \<Rightarrow> path list \<Rightarrow> string list \<Rightarrow> (path list \<times> error option) option"
where
  "dependenciesForKustomization 0 fs dir = None"
| "dependenciesForKustomization (Suc n) fs dir =
     (let path = filepath_Join fs dir ''kustomization.yaml'';
          deps = [path]
      in case os_Open fs path of
           Inl err \<Rightarrow> Some (deps, Some err)
         | Inr file \<Rightarrow>
            (case yaml_Decode fs file of
               Inl err \<Rightarrow> Some (deps, Some err)
             | Inr contents \<Rightarrow>
                (case bases_loop n fs dir deps (Bases contents) of
                   None \<Rightarrow> None
                 | Some (deps, Some err) \<Rightarrow> Some (deps, Some err)
                 | Some (deps, None) \<Rightarrow>
                    (let deps = append_joined fs dir deps (Resources contents);
                         deps = append_joined fs dir deps (Patches contents)
                     in Some (deps, None)))))"
| "bases_loop n fs dir deps [] = Some (deps, None)"
| "bases_loop n fs dir deps (base # bases) =
     (case dependenciesForKustomization n fs (filepath_Join fs dir base) of
        None \<Rightarrow> None
      | Some (baseDeps, err) \<Rightarrow>
         (let deps = deps @ baseDeps
          in case err of
               Some e \<Rightarrow> Some (deps, Some e)
             | None \<Rightarrow> bases_loop n fs dir deps bases))"

text \<open>The deployer's configuration: of \<^verbatim>\<open>v1alpha3.KustomizeDeploy\<close> only the path is read.\<close>

record KustomizeDeployer =
  KustomizePath :: path

definition Dependencies ::
    "nat \<Rightarrow> 'f filesystem \<Rightarrow> KustomizeDeployer \<Rightarrow> (path list \<times> error option) option" where
  "Dependencies n fs k = dependenciesForKustomization n fs (KustomizePath k)"

subsection \<open>Dependency resolution as a run of the process\<close>

text \<open>
  The same function with the state it acts on made explicit, so that what a call leaves
  behind can be stated. The process holds the file system it sees (\<open>disk\<close>), the files it
  has open (\<open>descriptors\<close>, the most recent first, each named by the path it was opened
  on) and the number of files it may have open at once (\<open>max_open\<close>).
\<close>

record 'f process =
  disk :: "'f filesystem"
  descriptors :: "path list"
  max_open :: nat

text \<open>
  \<^verbatim>\<open>os.Open\<close> opens for reading. With the table of descriptors full it fails before it
  looks at the path; otherwise it fails as the file system says or takes one descriptor.
\<close>

definition os_Open_run :: "path \<Rightarrow> 'f process \<Rightarrow> (error + 'f) \<times> 'f process" where
  "os_Open_run path s =
     (if max_open s \<le> length (descriptors s) then (Inl (Basic ''too many open files''), s)
      else case os_Open (disk s) path of
             Inl err \<Rightarrow> (Inl err, s)
           | Inr file \<Rightarrow> (Inr file, s\<lparr>descriptors := path # descriptors s\<rparr>))"

text \<open>\<^verbatim>\<open>File.Close\<close> gives back the descriptor of the file opened on \<open>path\<close>.\<close>

definition file_Close :: "path \<Rightarrow> 'f process \<Rightarrow> 'f process" where
  "file_Close path s = s\<lparr>descriptors := remove1 path (descriptors s)\<rparr>"

text \<open>
  Lines 95-133 again. \<^verbatim>\<open>defer file.Close()\<close> (line 103) runs at every return that follows a
  successful open: the inner \<open>case\<close> is the body after line 103, the outer one the
  deferred call. A call one level down starts from the process as this level left it,
  with this level's file still open.
\<close>

fun dependenciesForKustomization_run ::
    "nat \<Rightarrow> path \<Rightarrow> 'f process \<Rightarrow> ((path list \<times> error option) \<times> 'f process) option"
  and bases_loop_run ::
    "nat \<Rightarrow> path \<Rightarrow> path list \<Rightarrow> string list \<Rightarrow> 'f process
     \<Rightarrow> ((path list \<times> error option) \<times> 'f process) option"
where
  "dependenciesForKustomization_run 0 dir s = None"
| "dependenciesForKustomization_run (Suc n) dir s =
     (let path = filepath_Join (disk s) dir ''kustomization.yaml'';
          deps = [path]
      in case os_Open_run path s of
           (Inl err, s) \<Rightarrow> Some ((deps, Some err), s)
         | (Inr file, s) \<Rightarrow>
            (case (case yaml_Decode (disk s) file of
                     Inl err \<Rightarrow> Some ((deps, Some err), s)
                   | Inr contents \<Rightarrow>
                      (case bases_loop_run n dir deps (Bases contents) s of
                         None \<Rightarrow> None
                       | Some ((deps, Some err), s) \<Rightarrow> Some ((deps, Some err), s)
                       | Some ((deps, None), s) \<Rightarrow>
                          (let deps = append_joined (disk s) dir deps (Resources contents);
                               deps = append_joined (disk s) dir deps (Patches contents)
                           in Some ((deps, None), s))))
             of None \<Rightarrow> None
              | Some (returned, s) \<Rightarrow> Some (returned, file_Close path s)))"
| "bases_loop_run n dir deps [] s = Some ((deps, None), s)"
| "bases_loop_run n dir deps (base # bases) s =
     (case dependenciesForKustomization_run n (filepath_Join (disk s) dir base) s of
        None \<Rightarrow> None
      | Some ((baseDeps, err), s) \<Rightarrow>
         (let deps = deps @ baseDeps
          in case err of
               Some e \<Rightarrow> Some ((deps, Some e), s)
             | None \<Rightarrow> bases_loop_run n dir deps bases s))"


subsection \<open>The graph of base references\<close>

text \<open>
  The directories a call on \<open>dir\<close> calls itself on: the bases of the definition file,
  joined with \<open>dir\<close>, when that file opens and decodes; none otherwise.
\<close>

definition base_dirs :: "'f filesystem \<Rightarrow> path \<Rightarrow> path list" where
  "base_dirs fs dir =
     (case os_Open fs (filepath_Join fs dir ''kustomization.yaml'') of
        Inl err \<Rightarrow> []
      | Inr file \<Rightarrow>
         (case yaml_Decode fs file of
            Inl err \<Rightarrow> []
          | Inr contents \<Rightarrow> map (filepath_Join fs dir) (Bases contents)))"

text \<open>\<open>base_ref fs base dir\<close>: the overlay in \<open>dir\<close> lists the directory \<open>base\<close> as a base.\<close>

definition base_ref :: "'f filesystem \<Rightarrow> path \<Rightarrow> path \<Rightarrow> bool" where
  "base_ref fs base dir = (base \<in> set (base_dirs fs dir))"

text \<open>
  A chain of base references that starts at \<open>dir\<close>: each directory of the list is a
  base of the one before it. The nesting depth of an overlay is the length of its
  longest chain.
\<close>

fun base_chain :: "'f filesystem \<Rightarrow> path \<Rightarrow> path list \<Rightarrow> bool" where
  "base_chain fs dir [] = True"
| "base_chain fs dir (base # chain) = (base_ref fs base dir \<and> base_chain fs base chain)"

text \<open>An error that \<^verbatim>\<open>errors.Wrap\<close> produced, as opposed to a collaborator's own.\<close>

fun is_wrapped :: "error \<Rightarrow> bool" where
  "is_wrapped (Wrapped err message) = True"
| "is_wrapped (Basic message) = False"

subsection \<open>The deploy pipeline: \<^verbatim>\<open>readManifests\<close>, \<^verbatim>\<open>Deploy\<close>, \<^verbatim>\<open>Cleanup\<close>\<close>

text \<open>A manifest is a \<^verbatim>\<open>[]byte\<close>, a \<^verbatim>\<open>kubectl.ManifestList\<close> a slice of them (nil is \<open>[]\<close>).\<close>

type_synonym manifest = string
type_synonym ManifestList = "manifest list"

text \<open>
  The pipeline's collaborators, all declared outside this file, are parameters:
  \<^item> \<^verbatim>\<open>util.RunCmdOut\<close> runs the command (given here by its argument vector) in the outside
    world \<open>'w\<close>, which holds the cluster, the processes, the context and the writer, and
    returns the error or the output;
  \<^item> \<^verbatim>\<open>ManifestList.Append\<close> adds the manifests found in a buffer to a list;
  \<^item> \<^verbatim>\<open>ManifestList.ReplaceImages\<close> rewrites the images for the builds \<open>'b\<close>;
  \<^item> \<^verbatim>\<open>kubectl.CLI.Apply\<close> and \<^verbatim>\<open>kubectl.CLI.Delete\<close> act on the world;
  \<^item> \<^verbatim>\<open>parseManifestsForDeploys\<close> turns the applied manifests into results \<open>'a\<close>.
\<close>

record ('w, 'b, 'a) collaborators =
  util_RunCmdOut :: "string list \<Rightarrow> 'w \<Rightarrow> (error + string) \<times> 'w"
  ManifestList_Append :: "ManifestList \<Rightarrow> string \<Rightarrow> ManifestList"
  ManifestList_ReplaceImages :: "ManifestList \<Rightarrow> 'b list \<Rightarrow> error + ManifestList"
  kubectl_Apply :: "ManifestList \<Rightarrow> 'w \<Rightarrow> (error + ManifestList) \<times> 'w"
  kubectl_Delete :: "ManifestList \<Rightarrow> 'w \<Rightarrow> error option \<times> 'w"
  parseManifestsForDeploys :: "ManifestList \<Rightarrow> 'a list \<times> error option"

text \<open>
  A run threads the world through the calls and keeps a log of every collaborator it
  invoked, in order, with the manifests it passed. The log is not in the source: it is
  what makes "this stage was not invoked" a statement about the model.
\<close>

datatype call =
    Call_RunCmdOut "string list"
  | Call_ReplaceImages ManifestList
  | Call_Apply ManifestList
  | Call_Delete ManifestList
  | Call_parseManifestsForDeploys ManifestList

record 'w run =
  world :: 'w
  calls :: "call list"

definition invoked :: "call \<Rightarrow> 'w \<Rightarrow> 'w run \<Rightarrow> 'w run" where
  "invoked c w s = \<lparr>world = w, calls = calls s @ [c]\<rparr>"

text \<open>Lines 138-148. The result is Go's pair: the manifests (nil is \<open>[]\<close>) and the error.\<close>

definition readManifests ::
    "('w, 'b, 'a) collaborators \<Rightarrow> KustomizeDeployer \<Rightarrow> 'w run
     \<Rightarrow> (ManifestList \<times> error option) \<times> 'w run" where
  "readManifests C k s =
     (let cmd = [''kustomize'', ''build'', KustomizePath k];
          (r, w) = util_RunCmdOut C cmd (world s);
          s = invoked (Call_RunCmdOut cmd) w s
      in case r of
           Inl err \<Rightarrow> (([], errors_Wrap (Some err) ''kustomize build''), s)
         | Inr out \<Rightarrow> ((ManifestList_Append C [] out, None), s))"

text \<open>Lines 59-80.\<close>

definition Deploy ::
    "('w, 'b, 'a) collaborators \<Rightarrow> KustomizeDeployer \<Rightarrow> 'b list \<Rightarrow> 'w run
     \<Rightarrow> ('a list \<times> error option) \<times> 'w run" where
  "Deploy C k builds s =
     (let ((manifests, err), s) = readManifests C k s
      in if err \<noteq> None then (([], errors_Wrap err ''reading manifests''), s)
         else if length manifests = 0 then (([], None), s)
         else
           (let s = invoked (Call_ReplaceImages manifests) (world s) s
            in case ManifestList_ReplaceImages C manifests builds of
                 Inl err \<Rightarrow> (([], errors_Wrap (Some err) ''replacing images in manifests''), s)
               | Inr manifests \<Rightarrow>
                  (let (r, w) = kubectl_Apply C manifests (world s);
                       s = invoked (Call_Apply manifests) w s
                   in case r of
                        Inl err \<Rightarrow> (([], errors_Wrap (Some err) ''apply''), s)
                      | Inr updated \<Rightarrow>
                         (parseManifestsForDeploys C updated,
                          invoked (Call_parseManifestsForDeploys updated) (world s) s))))"

text \<open>Lines 82-93.\<close>

definition Cleanup ::
    "('w, 'b, 'a) collaborators \<Rightarrow> KustomizeDeployer \<Rightarrow> 'w run \<Rightarrow> error option \<times> 'w run" where
  "Cleanup C k s =
     (let ((manifests, err), s) = readManifests C k s
      in if err \<noteq> None then (errors_Wrap err ''reading manifests'', s)
         else
           (let (err, w) = kubectl_Delete C manifests (world s);
                s = invoked (Call_Delete manifests) w s
            in if err \<noteq> None then (errors_Wrap err ''delete'', s)
               else (None, s)))"

subsection \<open>Concrete surroundings for the examples\<close>

text \<open>
  On clean relative paths without dot segments \<^verbatim>\<open>filepath.Join\<close> puts a separator
  between its two arguments; the examples use only such paths.
\<close>

definition join_plain :: "path \<Rightarrow> path \<Rightarrow> path" where
  "join_plain dir name = dir @ ''/'' @ name"

text \<open>
  A small tree of overlays. A file is stored as what decoding it gives. \<open>app\<close> has one
  base; \<open>top\<close> has three, the second of which does not exist; \<open>bad\<close> holds a
  definition file that does not parse.
\<close>

definition example_files :: "(path \<times> (error + kustomization)) list" where
  "example_files =
     [(''app/kustomization.yaml'',
        Inr \<lparr>Bases = [''base''], Resources = [''a.yaml'', ''b.yaml''], Patches = [''p.yaml'']\<rparr>),
      (''app/base/kustomization.yaml'',
        Inr \<lparr>Bases = [], Resources = [''r.yaml''], Patches = []\<rparr>),
      (''bad/kustomization.yaml'',
        Inl (Basic ''yaml: unmarshal errors'')),
      (''top/kustomization.yaml'',
        Inr \<lparr>Bases = [''one'', ''two'', ''three''], Resources = [''x.yaml''], Patches = [''y.yaml'']\<rparr>),
      (''top/one/kustomization.yaml'',
        Inr \<lparr>Bases = [], Resources = [''s.yaml''], Patches = []\<rparr>),
      (''top/three/kustomization.yaml'',
        Inr \<lparr>Bases = [], Resources = [''t.yaml''], Patches = []\<rparr>)]"

definition example_fs :: "(error + kustomization) filesystem" where
  "example_fs =
     \<lparr>filepath_Join = join_plain,
      os_Open = (\<lambda>p. case map_of example_files p of
                        None \<Rightarrow> Inl (Basic ''no such file or directory'')
                      | Some f \<Rightarrow> Inr f),
      yaml_Decode = (\<lambda>f. f)\<rparr>"


text \<open>
  Collaborators that answer with fixed values: the renderer with \<open>rendered\<close>, image
  replacement with \<open>replaced\<close>, apply with \<open>applied\<close>, delete with \<open>deleted\<close>. The
  world counts the commands run against it; a buffer is one manifest unless it is empty;
  every applied manifest is its own result.
\<close>

definition fixed_collaborators ::
    "error + string \<Rightarrow> error + ManifestList \<Rightarrow> error + ManifestList \<Rightarrow> error option
     \<Rightarrow> (nat, string, manifest) collaborators" where
  "fixed_collaborators rendered replaced applied deleted =
     \<lparr>util_RunCmdOut = (\<lambda>cmd w. (rendered, Suc w)),
      ManifestList_Append = (\<lambda>l buf. if buf = [] then l else l @ [buf]),
      ManifestList_ReplaceImages = (\<lambda>l builds. replaced),
      kubectl_Apply = (\<lambda>l w. (applied, Suc w)),
      kubectl_Delete = (\<lambda>l w. (deleted, Suc w)),
      parseManifestsForDeploys = (\<lambda>l. (l, None))\<rparr>"

section \<open>Properties of dependency resolution\<close>

subsection \<open>The loops\<close>

lemma append_joined_eq:
  "append_joined fs dir deps entries = deps @ map (filepath_Join fs dir) entries"
  by (induction entries arbitrary: deps) simp_all

lemma bases_loop_all_ok:
  "list_all2 (\<lambda>base baseDeps.
      dependenciesForKustomization n fs (filepath_Join fs dir base) = Some (baseDeps, None)) bases closures
   \<Longrightarrow> bases_loop n fs dir deps bases = Some (deps @ concat closures, None)"
proof (induction bases closures arbitrary: deps rule: list_all2_induct)
  case Nil
  show ?case by simp
next
  case (Cons b c bs cs)
  then show ?case by simp
qed

lemma bases_loop_first_failure:
  assumes "list_all2 (\<lambda>base baseDeps.
      dependenciesForKustomization n fs (filepath_Join fs dir base) = Some (baseDeps, None)) before closures"
    and "dependenciesForKustomization n fs (filepath_Join fs dir base) = Some (partial, Some e)"
  shows "bases_loop n fs dir deps (before @ base # after) = Some (deps @ concat closures @ partial, Some e)"
  using assms
proof (induction before closures arbitrary: deps rule: list_all2_induct)
  case Nil
  then show ?case by simp
next
  case (Cons b c bs cs)
  then show ?case by simp
qed

lemma bases_loop_extends:
  "bases_loop n fs dir deps bases = Some (deps', err) \<Longrightarrow> \<exists>more. deps' = deps @ more"
proof (induction bases arbitrary: deps)
  case Nil
  then show ?case by simp
next
  case (Cons b bs)
  show ?case
  proof (cases "dependenciesForKustomization n fs (filepath_Join fs dir b)")
    case None
    with Cons.prems show ?thesis by simp
  next
    case (Some r)
    obtain baseDeps e where r: "r = (baseDeps, e)" by (cases r)
    show ?thesis
    proof (cases e)
      case None
      with Some r Cons.prems have "bases_loop n fs dir (deps @ baseDeps) bs = Some (deps', err)"
        by simp
      from Cons.IH [OF this] show ?thesis by auto
    next
      case (Some e')
      with \<open>dependenciesForKustomization n fs (filepath_Join fs dir b) = Some r\<close> r Cons.prems
      show ?thesis by auto
    qed
  qed
qed

subsection \<open>More stack never changes a result\<close>

lemma bases_loop_more_stack:
  assumes step: "\<And>d r. dependenciesForKustomization n fs d = Some r
                   \<Longrightarrow> dependenciesForKustomization (Suc n) fs d = Some r"
  shows "bases_loop n fs dir deps bases = Some r \<Longrightarrow> bases_loop (Suc n) fs dir deps bases = Some r"
proof (induction bases arbitrary: deps)
  case Nil
  then show ?case by simp
next
  case (Cons b bs)
  show ?case
  proof (cases "dependenciesForKustomization n fs (filepath_Join fs dir b)")
    case None
    with Cons.prems show ?thesis by simp
  next
    case (Some x)
    obtain baseDeps e where x: "x = (baseDeps, e)" by (cases x)
    have deeper: "dependenciesForKustomization (Suc n) fs (filepath_Join fs dir b) = Some (baseDeps, e)"
      using step [OF Some] x by simp
    show ?thesis
    proof (cases e)
      case None
      with Some x Cons.prems have "bases_loop n fs dir (deps @ baseDeps) bs = Some r"
        by simp
      from Cons.IH [OF this] deeper None show ?thesis
        by (simp del: dependenciesForKustomization.simps)
    next
      case (Some e')
      with \<open>dependenciesForKustomization n fs (filepath_Join fs dir b) = Some x\<close> x Cons.prems deeper
      show ?thesis by (simp del: dependenciesForKustomization.simps)
    qed
  qed
qed

lemma dependencies_more_stack_Suc:
  "dependenciesForKustomization n fs dir = Some r
   \<Longrightarrow> dependenciesForKustomization (Suc n) fs dir = Some r"
proof (induction n arbitrary: dir r)
  case 0
  then show ?case by simp
next
  case (Suc n)
  have loop: "bases_loop (Suc n) fs dir deps bases = Some x"
    if "bases_loop n fs dir deps bases = Some x" for deps bases x
    using Suc.IH that by (rule bases_loop_more_stack)
  let ?p = "filepath_Join fs dir ''kustomization.yaml''"
  show ?case
  proof (cases "os_Open fs ?p")
    case (Inl e)
    with Suc.prems show ?thesis by simp
  next
    case (Inr f)
    note opened = this
    show ?thesis
    proof (cases "yaml_Decode fs f")
      case (Inl e)
      with opened Suc.prems show ?thesis by simp
    next
      case (Inr contents)
      note contents = this
      show ?thesis
      proof (cases "bases_loop n fs dir [?p] (Bases contents)")
        case None
        with opened contents Suc.prems show ?thesis by simp
      next
        case (Some x)
        from loop [OF Some]
        have "bases_loop (Suc n) fs dir [?p] (Bases contents) = Some x" .
        with Some opened contents Suc.prems show ?thesis
          by (simp del: bases_loop.simps)
      qed
    qed
  qed
qed

lemma dependencies_more_stack:
  "dependenciesForKustomization n fs dir = Some r \<Longrightarrow> n \<le> m
   \<Longrightarrow> dependenciesForKustomization m fs dir = Some r"
  by (induction m) (auto simp: le_Suc_eq dest: dependencies_more_stack_Suc simp del: dependenciesForKustomization.simps)

subsection \<open>When the recursion returns\<close>

lemma bases_loop_returns:
  "(\<And>base. base \<in> set bases \<Longrightarrow> \<exists>r. dependenciesForKustomization n fs (filepath_Join fs dir base) = Some r)
   \<Longrightarrow> \<exists>r. bases_loop n fs dir deps bases = Some r"
proof (induction bases arbitrary: deps)
  case Nil
  show ?case by simp
next
  case (Cons b bs)
  from Cons.prems [of b] obtain baseDeps e
    where b: "dependenciesForKustomization n fs (filepath_Join fs dir b) = Some (baseDeps, e)"
    by auto
  have "\<exists>r. bases_loop n fs dir (deps @ baseDeps) bs = Some r"
  proof (rule Cons.IH)
    fix base assume "base \<in> set bs"
    then have "base \<in> set (b # bs)" by simp
    then show "\<exists>r. dependenciesForKustomization n fs (filepath_Join fs dir base) = Some r"
      by (rule Cons.prems)
  qed
  with b show ?case by (cases e) simp_all
qed

lemma dependencies_returns_if_bases_return:
  assumes "\<And>d. base_ref fs d dir \<Longrightarrow> \<exists>r. dependenciesForKustomization n fs d = Some r"
  shows "\<exists>r. dependenciesForKustomization (Suc n) fs dir = Some r"
proof -
  let ?p = "filepath_Join fs dir ''kustomization.yaml''"
  show ?thesis
  proof (cases "os_Open fs ?p")
    case (Inl e)
    then show ?thesis by simp
  next
    case (Inr f)
    note opened = this
    show ?thesis
    proof (cases "yaml_Decode fs f")
      case (Inl e)
      with opened show ?thesis by simp
    next
      case (Inr contents)
      have "\<exists>r. bases_loop n fs dir [?p] (Bases contents) = Some r"
      proof (rule bases_loop_returns)
        fix base assume "base \<in> set (Bases contents)"
        with opened Inr have "base_ref fs (filepath_Join fs dir base) dir"
          by (simp add: base_ref_def base_dirs_def)
        then show "\<exists>r. dependenciesForKustomization n fs (filepath_Join fs dir base) = Some r"
          by (rule assms)
      qed
      then obtain ds e where "bases_loop n fs dir [?p] (Bases contents) = Some (ds, e)"
        by auto
      with opened Inr show ?thesis by (cases e) simp_all
    qed
  qed
qed

lemma bounded_nesting_returns:
  "(\<And>chain. base_chain fs dir chain \<Longrightarrow> length chain \<le> n)
   \<Longrightarrow> \<exists>r. dependenciesForKustomization (Suc n) fs dir = Some r"
proof (induction n arbitrary: dir)
  case 0
  show ?case
  proof (rule dependencies_returns_if_bases_return)
    fix d assume "base_ref fs d dir"
    then have "base_chain fs dir [d]" by simp
    from 0 [OF this] show "\<exists>r. dependenciesForKustomization 0 fs d = Some r" by simp
  qed
next
  case (Suc n)
  show ?case
  proof (rule dependencies_returns_if_bases_return)
    fix d assume d: "base_ref fs d dir"
    show "\<exists>r. dependenciesForKustomization (Suc n) fs d = Some r"
    proof (rule Suc.IH)
      fix chain assume "base_chain fs d chain"
      with d have "base_chain fs dir (d # chain)" by simp
      from Suc.prems [OF this] show "length chain \<le> n" by simp
    qed
  qed
qed

lemma finite_chains_return:
  assumes "Wellfounded.accp (base_ref fs) dir"
  shows "\<exists>n r. dependenciesForKustomization n fs dir = Some r"
  using assms
proof (induction rule: accp.induct)
  case (accI dir)
  have "\<exists>n. \<forall>d \<in> set (base_dirs fs dir). \<exists>r. dependenciesForKustomization n fs d = Some r"
  proof -
    have "\<forall>d \<in> set (base_dirs fs dir). \<exists>n r. dependenciesForKustomization n fs d = Some r"
      using accI.IH by (simp add: base_ref_def)
    then have "\<And>ds. set ds \<subseteq> set (base_dirs fs dir)
          \<Longrightarrow> \<exists>n. \<forall>d \<in> set ds. \<exists>r. dependenciesForKustomization n fs d = Some r"
    proof -
      fix ds :: "path list"
      assume all: "\<forall>d \<in> set (base_dirs fs dir). \<exists>n r. dependenciesForKustomization n fs d = Some r"
      show "set ds \<subseteq> set (base_dirs fs dir)
          \<Longrightarrow> \<exists>n. \<forall>d \<in> set ds. \<exists>r. dependenciesForKustomization n fs d = Some r"
      proof (induction ds)
        case Nil
        show ?case by simp
      next
        case (Cons d ds)
        then obtain n where n: "\<forall>d \<in> set ds. \<exists>r. dependenciesForKustomization n fs d = Some r"
          by auto
        from Cons.prems all obtain k r where k: "dependenciesForKustomization k fs d = Some r"
          by auto
        have "\<exists>r. dependenciesForKustomization (max n k) fs d' = Some r" if "d' \<in> set (d # ds)" for d'
        proof (cases "d' = d")
          case True
          with dependencies_more_stack [OF k, of "max n k"] show ?thesis by simp
        next
          case False
          with that n obtain r' where "dependenciesForKustomization n fs d' = Some r'" by auto
          from dependencies_more_stack [OF this, of "max n k"] show ?thesis by simp
        qed
        then show ?case by blast
      qed
    qed
    then show ?thesis by blast
  qed
  then obtain n where "\<forall>d \<in> set (base_dirs fs dir). \<exists>r. dependenciesForKustomization n fs d = Some r" ..
  then have "\<exists>r. dependenciesForKustomization (Suc n) fs dir = Some r"
    by (intro dependencies_returns_if_bases_return) (simp add: base_ref_def)
  then show ?case by blast
qed

subsection \<open>What a run leaves behind\<close>

lemma os_Open_run_cases:
  obtains (limit) "max_open s \<le> length (descriptors s)"
      "os_Open_run path s = (Inl (Basic ''too many open files''), s)"
    | (failed) err where "length (descriptors s) < max_open s"
      "os_Open (disk s) path = Inl err" "os_Open_run path s = (Inl err, s)"
    | (opened) f where "length (descriptors s) < max_open s"
      "os_Open (disk s) path = Inr f"
      "os_Open_run path s = (Inr f, s\<lparr>descriptors := path # descriptors s\<rparr>)"
proof (cases "max_open s \<le> length (descriptors s)")
  case True
  then show ?thesis by (intro limit) (simp_all add: os_Open_run_def)
next
  case False
  then show ?thesis
    by (cases "os_Open (disk s) path") (auto simp: os_Open_run_def intro: failed opened)
qed

lemma file_Close_after_open:
  "file_Close path (s\<lparr>descriptors := path # descriptors s\<rparr>) = s"
  by (simp add: file_Close_def)





text \<open>
  As long as the table of descriptors has room for the whole stack, the run returns what
  the function on the bare file system returns.
\<close>

lemma bases_loop_run_pure:
  fixes s :: "'f process"
  assumes calls: "\<And>d. dependenciesForKustomization_run n d s
      = map_option (\<lambda>r. (r, s)) (dependenciesForKustomization n (disk s) d)"
  shows "bases_loop_run n dir deps bases s
      = map_option (\<lambda>r. (r, s)) (bases_loop n (disk s) dir deps bases)"
proof (induction bases arbitrary: deps)
  case Nil
  show ?case by simp
next
  case (Cons b bs)
  show ?case
  proof (cases "dependenciesForKustomization n (disk s) (filepath_Join (disk s) dir b)")
    case None
    with calls [of "filepath_Join (disk s) dir b"] show ?thesis
      by (simp del: dependenciesForKustomization_run.simps dependenciesForKustomization.simps)
  next
    case (Some x)
    obtain baseDeps e where x: "x = (baseDeps, e)" by (cases x)
    from Some x calls [of "filepath_Join (disk s) dir b"] Cons.IH [of "deps @ baseDeps"]
    show ?thesis
      by (cases e)
        (simp_all del: dependenciesForKustomization_run.simps dependenciesForKustomization.simps)
  qed
qed

lemma dependenciesForKustomization_run_pure:
  "length (descriptors s) + n \<le> max_open s
   \<Longrightarrow> dependenciesForKustomization_run n dir s
       = map_option (\<lambda>r. (r, s)) (dependenciesForKustomization n (disk s) dir)"
proof (induction n arbitrary: dir s)
  case 0
  show ?case by simp
next
  case (Suc n)
  let ?p = "filepath_Join (disk s) dir ''kustomization.yaml''"
  let ?s1 = "s\<lparr>descriptors := ?p # descriptors s\<rparr>"
  show ?case
  proof (cases rule: os_Open_run_cases [where s = s and path = ?p])
    case limit
    with Suc.prems show ?thesis by simp
  next
    case (failed err)
    then show ?thesis by simp
  next
    case (opened f)
    note opened_f = opened(2,3)
    show ?thesis
    proof (cases "yaml_Decode (disk s) f")
      case (Inl err)
      with opened_f show ?thesis by (simp add: file_Close_after_open)
    next
      case (Inr contents)
      have "length (descriptors ?s1) + n \<le> max_open ?s1"
        using Suc.prems by simp
      then have "\<And>d. dependenciesForKustomization_run n d ?s1
          = map_option (\<lambda>r. (r, ?s1)) (dependenciesForKustomization n (disk ?s1) d)"
        by (rule Suc.IH)
      then have loop: "bases_loop_run n dir [?p] (Bases contents) ?s1
          = map_option (\<lambda>r. (r, ?s1)) (bases_loop n (disk ?s1) dir [?p] (Bases contents))"
        by (rule bases_loop_run_pure)
      show ?thesis
      proof (cases "bases_loop n (disk s) dir [?p] (Bases contents)")
        case None
        with loop opened_f Inr show ?thesis
          by (simp del: bases_loop_run.simps bases_loop.simps)
      next
        case (Some x)
        obtain ds e where x: "x = (ds, e)" by (cases x)
        from Some x loop opened_f Inr show ?thesis
          by (cases e)
            (simp_all add: file_Close_after_open del: bases_loop_run.simps bases_loop.simps)
      qed
    qed
  qed
qed

lemmas example_defs = example_fs_def example_files_def join_plain_def

subsection \<open>The resolver's contract\<close>

text \<open>
  C1. When the definition file of \<open>dir\<close> opens and decodes, and every base resolves
  without error, the call returns, with no error, the path of the definition file, then
  the whole result of each base in the order the bases are listed, then every resource
  joined with \<open>dir\<close>, then every patch joined with \<open>dir\<close>, resources and patches in
  list order and without recursion into them.
\<close>

theorem resolve_success_closure_order:
  assumes "os_Open fs (filepath_Join fs dir ''kustomization.yaml'') = Inr file"
    and "yaml_Decode fs file = Inr contents"
    and "list_all2 (\<lambda>base baseDeps.
      dependenciesForKustomization n fs (filepath_Join fs dir base) = Some (baseDeps, None)) (Bases contents) closures"
  shows "dependenciesForKustomization (Suc n) fs dir =
    Some ([filepath_Join fs dir ''kustomization.yaml''] @ concat closures
          @ map (filepath_Join fs dir) (Resources contents)
          @ map (filepath_Join fs dir) (Patches contents), None)"
  using assms(1,2) bases_loop_all_ok [OF assms(3), of "[filepath_Join fs dir ''kustomization.yaml'']"]
  by (simp add: append_joined_eq)

theorem resolve_success_closure_order_witness:
  "dependenciesForKustomization (Suc (Suc 0)) example_fs ''app'' =
     Some ([''app/kustomization.yaml'', ''app/base/kustomization.yaml'', ''app/base/r.yaml'',
            ''app/a.yaml'', ''app/b.yaml'', ''app/p.yaml''], None)"
proof -
  let ?contents = "\<lparr>Bases = [''base''], Resources = [''a.yaml'', ''b.yaml''], Patches = [''p.yaml'']\<rparr>"
  have opened: "os_Open example_fs (filepath_Join example_fs ''app'' ''kustomization.yaml'') = Inr (Inr ?contents)"
    by (simp add: example_defs)
  have decoded: "yaml_Decode example_fs (Inr ?contents) = Inr ?contents"
    by (simp add: example_defs)
  have bases: "list_all2 (\<lambda>base baseDeps.
      dependenciesForKustomization (Suc 0) example_fs (filepath_Join example_fs ''app'' base)
        = Some (baseDeps, None))
      (Bases ?contents) [[''app/base/kustomization.yaml'', ''app/base/r.yaml'']]"
    by (simp add: example_defs)
  from resolve_success_closure_order [OF opened decoded bases] show ?thesis
    by (simp add: example_defs)
qed

text \<open>
  C2. When the definition file cannot be opened, and likewise when it opens but does not
  decode, the call returns exactly the one-element list holding the path of the
  definition file, together with the open error or the decode error.
\<close>

theorem resolve_open_or_decode_failure:
  "(os_Open fs (filepath_Join fs dir ''kustomization.yaml'') = Inl e \<longrightarrow>
      dependenciesForKustomization (Suc n) fs dir = Some ([filepath_Join fs dir ''kustomization.yaml''], Some e))
   \<and> (os_Open fs (filepath_Join fs dir ''kustomization.yaml'') = Inr file \<and> yaml_Decode fs file = Inl e \<longrightarrow>
      dependenciesForKustomization (Suc n) fs dir = Some ([filepath_Join fs dir ''kustomization.yaml''], Some e))"
  by simp

theorem resolve_open_or_decode_failure_witness:
  "dependenciesForKustomization (Suc 0) example_fs ''gone'' =
     Some ([''gone/kustomization.yaml''], Some (Basic ''no such file or directory''))
   \<and> dependenciesForKustomization (Suc 0) example_fs ''bad'' =
     Some ([''bad/kustomization.yaml''], Some (Basic ''yaml: unmarshal errors''))"
proof -
  have missing: "os_Open example_fs (filepath_Join example_fs ''gone'' ''kustomization.yaml'')
      = Inl (Basic ''no such file or directory'')"
    by (simp add: example_defs)
  have malformed: "os_Open example_fs (filepath_Join example_fs ''bad'' ''kustomization.yaml'')
      = Inr (Inl (Basic ''yaml: unmarshal errors''))
    \<and> yaml_Decode example_fs (Inl (Basic ''yaml: unmarshal errors'')) = Inl (Basic ''yaml: unmarshal errors'')"
    by (simp add: example_defs)
  from resolve_open_or_decode_failure [of example_fs "''gone''" "Basic ''no such file or directory''" 0] missing
  have one: "dependenciesForKustomization (Suc 0) example_fs ''gone'' =
        Some ([filepath_Join example_fs ''gone'' ''kustomization.yaml''], Some (Basic ''no such file or directory''))"
    by blast
  from resolve_open_or_decode_failure [of example_fs "''bad''" "Basic ''yaml: unmarshal errors''" 0 "Inl (Basic ''yaml: unmarshal errors'')"] malformed
  have two: "dependenciesForKustomization (Suc 0) example_fs ''bad'' =
        Some ([filepath_Join example_fs ''bad'' ''kustomization.yaml''], Some (Basic ''yaml: unmarshal errors''))"
    by blast
  from one two show ?thesis by (simp add: example_defs)
qed

text \<open>
  C3. When the bases before some base resolve without error and that base fails, the call
  returns that base's error with the definition file, the results of the bases before,
  and the partial result of the failing call: whatever the bases after it are (they are
  not resolved), and without any resource or patch of this level.
\<close>

theorem resolve_base_failure_stops:
  assumes "os_Open fs (filepath_Join fs dir ''kustomization.yaml'') = Inr file"
    and "yaml_Decode fs file = Inr contents"
    and "Bases contents = before @ base # after"
    and "list_all2 (\<lambda>base baseDeps.
      dependenciesForKustomization n fs (filepath_Join fs dir base) = Some (baseDeps, None)) before closures"
    and "dependenciesForKustomization n fs (filepath_Join fs dir base) = Some (partial, Some e)"
  shows "dependenciesForKustomization (Suc n) fs dir =
    Some ([filepath_Join fs dir ''kustomization.yaml''] @ concat closures @ partial, Some e)"
  using assms(1,2,3) bases_loop_first_failure [OF assms(4,5), of "[filepath_Join fs dir ''kustomization.yaml'']" after]
  by simp

theorem resolve_base_failure_stops_witness:
  "dependenciesForKustomization (Suc (Suc 0)) example_fs ''top'' =
     Some ([''top/kustomization.yaml'', ''top/one/kustomization.yaml'', ''top/one/s.yaml'',
            ''top/two/kustomization.yaml''], Some (Basic ''no such file or directory''))"
proof -
  let ?contents = "\<lparr>Bases = [''one'', ''two'', ''three''], Resources = [''x.yaml''], Patches = [''y.yaml'']\<rparr>"
  have opened: "os_Open example_fs (filepath_Join example_fs ''top'' ''kustomization.yaml'') = Inr (Inr ?contents)"
    by (simp add: example_defs)
  have decoded: "yaml_Decode example_fs (Inr ?contents) = Inr ?contents"
    by (simp add: example_defs)
  have split: "Bases ?contents = [''one''] @ ''two'' # [''three'']"
    by simp
  have before: "list_all2 (\<lambda>base baseDeps.
      dependenciesForKustomization (Suc 0) example_fs (filepath_Join example_fs ''top'' base)
        = Some (baseDeps, None))
      [''one''] [[''top/one/kustomization.yaml'', ''top/one/s.yaml'']]"
    by (simp add: example_defs)
  have failing: "dependenciesForKustomization (Suc 0) example_fs (filepath_Join example_fs ''top'' ''two'')
      = Some ([''top/two/kustomization.yaml''], Some (Basic ''no such file or directory''))"
    by (simp add: example_defs)
  from resolve_base_failure_stops [OF opened decoded split before failing] show ?thesis
    by (simp add: example_defs)
qed

text \<open>
  C4. Whatever the directory, and whether the call returns an error or not, the returned
  list is not empty and its first element is the path of the definition file of that
  directory; recursive calls are calls, so the same holds of their results.
\<close>

theorem resolve_first_is_definition_file:
  assumes "dependenciesForKustomization n fs dir = Some (deps, err)"
  shows "deps \<noteq> [] \<and> hd deps = filepath_Join fs dir ''kustomization.yaml''"
proof (cases n)
  case 0
  with assms show ?thesis by simp
next
  case (Suc m)
  with assms show ?thesis
    by (auto simp: Let_def append_joined_eq split: sum.splits option.splits prod.splits
        dest!: bases_loop_extends)
qed

theorem resolve_first_is_definition_file_witness:
  "dependenciesForKustomization (Suc (Suc 0)) example_fs ''top'' =
     Some ([''top/kustomization.yaml'', ''top/one/kustomization.yaml'', ''top/one/s.yaml'',
            ''top/two/kustomization.yaml''], Some (Basic ''no such file or directory''))
   \<and> hd [''top/kustomization.yaml'', ''top/one/kustomization.yaml'', ''top/one/s.yaml'',
            ''top/two/kustomization.yaml''] = filepath_Join example_fs ''top'' ''kustomization.yaml''"
proof -
  have returned: "dependenciesForKustomization (Suc (Suc 0)) example_fs ''top'' =
     Some ([''top/kustomization.yaml'', ''top/one/kustomization.yaml'', ''top/one/s.yaml'',
            ''top/two/kustomization.yaml''], Some (Basic ''no such file or directory''))"
    by (simp add: example_defs)
  from resolve_first_is_definition_file [OF returned] returned show ?thesis by simp
qed

text \<open>
  C9. When every chain of base references from \<open>dir\<close> is finite the call returns, given
  enough stack; and when no chain from \<open>dir\<close> is longer than \<open>n\<close>, a stack of \<open>n + 1\<close>
  nested calls is enough: the depth of the recursion is bounded by the nesting depth of
  the overlay. Nothing is said of overlays with a cycle among their bases.
\<close>

theorem resolve_terminates_on_finite_chains:
  "(Wellfounded.accp (base_ref fs) dir \<longrightarrow> (\<exists>n r. dependenciesForKustomization n fs dir = Some r))
   \<and> ((\<forall>chain. base_chain fs dir chain \<longrightarrow> length chain \<le> n)
        \<longrightarrow> (\<exists>r. dependenciesForKustomization (Suc n) fs dir = Some r))"
proof (intro conjI impI)
  assume "Wellfounded.accp (base_ref fs) dir"
  then show "\<exists>n r. dependenciesForKustomization n fs dir = Some r"
    by (rule finite_chains_return)
next
  assume "\<forall>chain. base_chain fs dir chain \<longrightarrow> length chain \<le> n"
  then have "\<And>chain. base_chain fs dir chain \<Longrightarrow> length chain \<le> n" by blast
  then show "\<exists>r. dependenciesForKustomization (Suc n) fs dir = Some r"
    by (rule bounded_nesting_returns)
qed

theorem resolve_terminates_on_finite_chains_witness:
  "Wellfounded.accp (base_ref example_fs) ''app''
   \<and> (\<exists>n r. dependenciesForKustomization n example_fs ''app'' = Some r)
   \<and> (\<exists>r. dependenciesForKustomization (Suc (Suc 0)) example_fs ''app'' = Some r)"
proof -
  have root: "base_dirs example_fs ''app'' = [''app/base'']"
    by (simp add: base_dirs_def example_defs)
  have leaf: "base_dirs example_fs ''app/base'' = []"
    by (simp add: base_dirs_def example_defs)
  have below: "Wellfounded.accp (base_ref example_fs) ''app/base''"
    by (rule accp.accI) (simp add: base_ref_def leaf)
  have finite_chains: "Wellfounded.accp (base_ref example_fs) ''app''"
  proof (rule accp.accI)
    fix d assume "base_ref example_fs d ''app''"
    then have "d = ''app/base''" by (simp add: base_ref_def root)
    with below show "Wellfounded.accp (base_ref example_fs) d" by simp
  qed
  have depth: "\<forall>chain. base_chain example_fs ''app'' chain \<longrightarrow> length chain \<le> Suc 0"
  proof (intro allI impI)
    fix chain assume chain: "base_chain example_fs ''app'' chain"
    show "length chain \<le> Suc 0"
    proof (cases chain)
      case Nil
      then show ?thesis by simp
    next
      case (Cons d rest)
      with chain have "base_ref example_fs d ''app''" and rest: "base_chain example_fs d rest"
        by simp_all
      then have d: "d = ''app/base''"
        by (simp add: base_ref_def root)
      from rest have "rest = []"
        unfolding d by (cases rest) (simp_all add: base_ref_def leaf)
      with Cons show ?thesis by simp
    qed
  qed
  note at_app = resolve_terminates_on_finite_chains [of example_fs "''app''" "Suc 0"]
  from at_app [THEN conjunct1, THEN mp, OF finite_chains]
    at_app [THEN conjunct2, THEN mp, OF depth] finite_chains
  show ?thesis by (intro conjI)
qed



section \<open>Properties of the deploy pipeline\<close>

subsection \<open>What a run does, stage by stage\<close>

lemma readManifests_failure:
  "util_RunCmdOut C [''kustomize'', ''build'', KustomizePath k] (world s) = (Inl e, w)
   \<Longrightarrow> readManifests C k s =
        (([], Some (Wrapped e ''kustomize build'')),
         \<lparr>world = w, calls = calls s @ [Call_RunCmdOut [''kustomize'', ''build'', KustomizePath k]]\<rparr>)"
  by (simp add: readManifests_def invoked_def)

lemma readManifests_success:
  "util_RunCmdOut C [''kustomize'', ''build'', KustomizePath k] (world s) = (Inr out, w)
   \<Longrightarrow> readManifests C k s =
        ((ManifestList_Append C [] out, None),
         \<lparr>world = w, calls = calls s @ [Call_RunCmdOut [''kustomize'', ''build'', KustomizePath k]]\<rparr>)"
  by (simp add: readManifests_def invoked_def)

lemma Deploy_render_failure:
  assumes "util_RunCmdOut C [''kustomize'', ''build'', KustomizePath k] (world s) = (Inl e, w)"
  shows "Deploy C k builds s =
        (([], Some (Wrapped (Wrapped e ''kustomize build'') ''reading manifests'')),
         \<lparr>world = w, calls = calls s @ [Call_RunCmdOut [''kustomize'', ''build'', KustomizePath k]]\<rparr>)"
  by (simp add: Deploy_def readManifests_failure [OF assms])

lemma Deploy_nothing_rendered:
  assumes "util_RunCmdOut C [''kustomize'', ''build'', KustomizePath k] (world s) = (Inr out, w)"
    and "ManifestList_Append C [] out = []"
  shows "Deploy C k builds s =
        (([], None),
         \<lparr>world = w, calls = calls s @ [Call_RunCmdOut [''kustomize'', ''build'', KustomizePath k]]\<rparr>)"
  by (simp add: Deploy_def readManifests_success [OF assms(1)] assms(2))

lemma Deploy_replace_failure:
  assumes "util_RunCmdOut C [''kustomize'', ''build'', KustomizePath k] (world s) = (Inr out, w)"
    and "ManifestList_Append C [] out = manifests" and "manifests \<noteq> []"
    and "ManifestList_ReplaceImages C manifests builds = Inl e"
  shows "Deploy C k builds s =
        (([], Some (Wrapped e ''replacing images in manifests'')),
         \<lparr>world = w, calls = calls s @ [Call_RunCmdOut [''kustomize'', ''build'', KustomizePath k],
                                          Call_ReplaceImages manifests]\<rparr>)"
  using assms(3,4)
  by (simp add: Deploy_def readManifests_success [OF assms(1)] assms(2) invoked_def)

lemma Deploy_apply_failure:
  assumes "util_RunCmdOut C [''kustomize'', ''build'', KustomizePath k] (world s) = (Inr out, w)"
    and "ManifestList_Append C [] out = manifests" and "manifests \<noteq> []"
    and "ManifestList_ReplaceImages C manifests builds = Inr replaced"
    and "kubectl_Apply C replaced w = (Inl e, w')"
  shows "Deploy C k builds s =
        (([], Some (Wrapped e ''apply'')),
         \<lparr>world = w', calls = calls s @ [Call_RunCmdOut [''kustomize'', ''build'', KustomizePath k],
                                           Call_ReplaceImages manifests, Call_Apply replaced]\<rparr>)"
  using assms(3,4,5)
  by (simp add: Deploy_def readManifests_success [OF assms(1)] assms(2) invoked_def)

lemma Deploy_applied:
  assumes "util_RunCmdOut C [''kustomize'', ''build'', KustomizePath k] (world s) = (Inr out, w)"
    and "ManifestList_Append C [] out = manifests" and "manifests \<noteq> []"
    and "ManifestList_ReplaceImages C manifests builds = Inr replaced"
    and "kubectl_Apply C replaced w = (Inr updated, w')"
  shows "Deploy C k builds s =
        (parseManifestsForDeploys C updated,
         \<lparr>world = w', calls = calls s @ [Call_RunCmdOut [''kustomize'', ''build'', KustomizePath k],
                                           Call_ReplaceImages manifests, Call_Apply replaced,
                                           Call_parseManifestsForDeploys updated]\<rparr>)"
  using assms(3,4,5)
  by (simp add: Deploy_def readManifests_success [OF assms(1)] assms(2) invoked_def)

lemma Cleanup_render_failure:
  assumes "util_RunCmdOut C [''kustomize'', ''build'', KustomizePath k] (world s) = (Inl e, w)"
  shows "Cleanup C k s =
        (Some (Wrapped (Wrapped e ''kustomize build'') ''reading manifests''),
         \<lparr>world = w, calls = calls s @ [Call_RunCmdOut [''kustomize'', ''build'', KustomizePath k]]\<rparr>)"
  by (simp add: Cleanup_def readManifests_failure [OF assms])

lemma Cleanup_delete_failure:
  assumes "util_RunCmdOut C [''kustomize'', ''build'', KustomizePath k] (world s) = (Inr out, w)"
    and "kubectl_Delete C (ManifestList_Append C [] out) w = (Some e, w')"
  shows "Cleanup C k s =
        (Some (Wrapped e ''delete''),
         \<lparr>world = w', calls = calls s @ [Call_RunCmdOut [''kustomize'', ''build'', KustomizePath k],
                                           Call_Delete (ManifestList_Append C [] out)]\<rparr>)"
  using assms(2)
  by (simp add: Cleanup_def readManifests_success [OF assms(1)] invoked_def)

lemma Cleanup_deleted:
  assumes "util_RunCmdOut C [''kustomize'', ''build'', KustomizePath k] (world s) = (Inr out, w)"
    and "kubectl_Delete C (ManifestList_Append C [] out) w = (None, w')"
  shows "Cleanup C k s =
        (None,
         \<lparr>world = w', calls = calls s @ [Call_RunCmdOut [''kustomize'', ''build'', KustomizePath k],
                                           Call_Delete (ManifestList_Append C [] out)]\<rparr>)"
  using assms(2)
  by (simp add: Cleanup_def readManifests_success [OF assms(1)] invoked_def)

subsection \<open>The pipeline's contract\<close>

text \<open>
  C5. When the renderer succeeds and its output holds no manifest, \<^verbatim>\<open>Deploy\<close> returns no
  result and no error, and the renderer is the only collaborator it has invoked: neither
  image replacement nor apply runs, and the world is as the renderer left it.
\<close>

theorem deploy_empty_render_returns_early:
  assumes "util_RunCmdOut C [''kustomize'', ''build'', KustomizePath k] (world s) = (Inr out, w)"
    and "ManifestList_Append C [] out = []"
  shows "Deploy C k builds s =
        (([], None),
         \<lparr>world = w, calls = calls s @ [Call_RunCmdOut [''kustomize'', ''build'', KustomizePath k]]\<rparr>)"
  using assms by (rule Deploy_nothing_rendered)

theorem deploy_empty_render_returns_early_witness:
  "Deploy (fixed_collaborators (Inr []) (Inr [''replaced'']) (Inr [''applied'']) None)
      \<lparr>KustomizePath = ''app''\<rparr> [''image''] \<lparr>world = 0, calls = []\<rparr> =
     (([], None), \<lparr>world = Suc 0, calls = [Call_RunCmdOut [''kustomize'', ''build'', ''app'']]\<rparr>)"
proof -
  let ?C = "fixed_collaborators (Inr []) (Inr [''replaced'']) (Inr [''applied'']) None"
  let ?k = "\<lparr>KustomizePath = ''app''\<rparr>"
  let ?s = "\<lparr>world = 0 :: nat, calls = []\<rparr>"
  have rendered: "util_RunCmdOut ?C [''kustomize'', ''build'', KustomizePath ?k] (world ?s) = (Inr [], Suc 0)"
    by (simp add: fixed_collaborators_def)
  have empty_render: "ManifestList_Append ?C [] [] = []"
    by (simp add: fixed_collaborators_def)
  from deploy_empty_render_returns_early [OF rendered empty_render, of "[''image'']"] show ?thesis by simp
qed

text \<open>
  C6. When a stage of \<^verbatim>\<open>Deploy\<close> fails, \<^verbatim>\<open>Deploy\<close> returns no result together with an
  error, and no later stage runs: after a render failure only the renderer was invoked,
  after an image-replacement failure the renderer and image replacement, after an apply
  failure these and apply, and never the parsing of results.
\<close>

theorem deploy_stage_failure_aborts:
  "(util_RunCmdOut C [''kustomize'', ''build'', KustomizePath k] (world s) = (Inl e, w) \<longrightarrow>
      (\<exists>err. Deploy C k builds s =
        (([], Some err),
         \<lparr>world = w, calls = calls s @ [Call_RunCmdOut [''kustomize'', ''build'', KustomizePath k]]\<rparr>)))
   \<and> (util_RunCmdOut C [''kustomize'', ''build'', KustomizePath k] (world s) = (Inr out, w)
       \<and> ManifestList_Append C [] out = manifests \<and> manifests \<noteq> []
       \<and> ManifestList_ReplaceImages C manifests builds = Inl e \<longrightarrow>
      (\<exists>err. Deploy C k builds s =
        (([], Some err),
         \<lparr>world = w, calls = calls s @ [Call_RunCmdOut [''kustomize'', ''build'', KustomizePath k],
                                          Call_ReplaceImages manifests]\<rparr>)))
   \<and> (util_RunCmdOut C [''kustomize'', ''build'', KustomizePath k] (world s) = (Inr out, w)
       \<and> ManifestList_Append C [] out = manifests \<and> manifests \<noteq> []
       \<and> ManifestList_ReplaceImages C manifests builds = Inr replaced
       \<and> kubectl_Apply C replaced w = (Inl e, w') \<longrightarrow>
      (\<exists>err. Deploy C k builds s =
        (([], Some err),
         \<lparr>world = w', calls = calls s @ [Call_RunCmdOut [''kustomize'', ''build'', KustomizePath k],
                                           Call_ReplaceImages manifests, Call_Apply replaced]\<rparr>)))"
proof (intro conjI impI)
  assume "util_RunCmdOut C [''kustomize'', ''build'', KustomizePath k] (world s) = (Inl e, w)"
  from Deploy_render_failure [OF this, of builds]
  show "\<exists>err. Deploy C k builds s =
        (([], Some err),
         \<lparr>world = w, calls = calls s @ [Call_RunCmdOut [''kustomize'', ''build'', KustomizePath k]]\<rparr>)"
    by - (rule exI, assumption)
next
  assume "util_RunCmdOut C [''kustomize'', ''build'', KustomizePath k] (world s) = (Inr out, w)
       \<and> ManifestList_Append C [] out = manifests \<and> manifests \<noteq> []
       \<and> ManifestList_ReplaceImages C manifests builds = Inl e"
  then have "Deploy C k builds s =
        (([], Some (Wrapped e ''replacing images in manifests'')),
         \<lparr>world = w, calls = calls s @ [Call_RunCmdOut [''kustomize'', ''build'', KustomizePath k],
                                          Call_ReplaceImages manifests]\<rparr>)"
    by (elim conjE) (rule Deploy_replace_failure)
  then show "\<exists>err. Deploy C k builds s =
        (([], Some err),
         \<lparr>world = w, calls = calls s @ [Call_RunCmdOut [''kustomize'', ''build'', KustomizePath k],
                                          Call_ReplaceImages manifests]\<rparr>)"
    by - (rule exI, assumption)
next
  assume "util_RunCmdOut C [''kustomize'', ''build'', KustomizePath k] (world s) = (Inr out, w)
       \<and> ManifestList_Append C [] out = manifests \<and> manifests \<noteq> []
       \<and> ManifestList_ReplaceImages C manifests builds = Inr replaced
       \<and> kubectl_Apply C replaced w = (Inl e, w')"
  then have "Deploy C k builds s =
        (([], Some (Wrapped e ''apply'')),
         \<lparr>world = w', calls = calls s @ [Call_RunCmdOut [''kustomize'', ''build'', KustomizePath k],
                                           Call_ReplaceImages manifests, Call_Apply replaced]\<rparr>)"
    by (elim conjE) (rule Deploy_apply_failure)
  then show "\<exists>err. Deploy C k builds s =
        (([], Some err),
         \<lparr>world = w', calls = calls s @ [Call_RunCmdOut [''kustomize'', ''build'', KustomizePath k],
                                           Call_ReplaceImages manifests, Call_Apply replaced]\<rparr>)"
    by - (rule exI, assumption)
qed

theorem deploy_stage_failure_aborts_witness:
  "Deploy (fixed_collaborators (Inl (Basic ''exit status 1'')) (Inr [''replaced'']) (Inr [''applied'']) None)
      \<lparr>KustomizePath = ''app''\<rparr> [''image''] \<lparr>world = 0, calls = []\<rparr> =
     (([], Some (Wrapped (Wrapped (Basic ''exit status 1'') ''kustomize build'') ''reading manifests'')),
      \<lparr>world = Suc 0, calls = [Call_RunCmdOut [''kustomize'', ''build'', ''app'']]\<rparr>)
   \<and> Deploy (fixed_collaborators (Inr ''rendered'') (Inl (Basic ''bad manifest'')) (Inr [''applied'']) None)
      \<lparr>KustomizePath = ''app''\<rparr> [''image''] \<lparr>world = 0, calls = []\<rparr> =
     (([], Some (Wrapped (Basic ''bad manifest'') ''replacing images in manifests'')),
      \<lparr>world = Suc 0, calls = [Call_RunCmdOut [''kustomize'', ''build'', ''app''],
                                 Call_ReplaceImages [''rendered'']]\<rparr>)
   \<and> Deploy (fixed_collaborators (Inr ''rendered'') (Inr [''replaced'']) (Inl (Basic ''forbidden'')) None)
      \<lparr>KustomizePath = ''app''\<rparr> [''image''] \<lparr>world = 0, calls = []\<rparr> =
     (([], Some (Wrapped (Basic ''forbidden'') ''apply'')),
      \<lparr>world = Suc (Suc 0), calls = [Call_RunCmdOut [''kustomize'', ''build'', ''app''],
                                       Call_ReplaceImages [''rendered''], Call_Apply [''replaced'']]\<rparr>)"
proof -
  let ?k = "\<lparr>KustomizePath = ''app''\<rparr>"
  let ?s = "\<lparr>world = 0 :: nat, calls = []\<rparr>"
  let ?C1 = "fixed_collaborators (Inl (Basic ''exit status 1'')) (Inr [''replaced'']) (Inr [''applied'']) None"
  let ?C2 = "fixed_collaborators (Inr ''rendered'') (Inl (Basic ''bad manifest'')) (Inr [''applied'']) None"
  let ?C3 = "fixed_collaborators (Inr ''rendered'') (Inr [''replaced'']) (Inl (Basic ''forbidden'')) None"
  have render_fails:
    "util_RunCmdOut ?C1 [''kustomize'', ''build'', KustomizePath ?k] (world ?s) = (Inl (Basic ''exit status 1''), Suc 0)"
    by (simp add: fixed_collaborators_def)
  have replace_fails:
    "util_RunCmdOut ?C2 [''kustomize'', ''build'', KustomizePath ?k] (world ?s) = (Inr ''rendered'', Suc 0)
     \<and> ManifestList_Append ?C2 [] ''rendered'' = [''rendered''] \<and> [''rendered''] \<noteq> []
     \<and> ManifestList_ReplaceImages ?C2 [''rendered''] [''image''] = Inl (Basic ''bad manifest'')"
    by (simp add: fixed_collaborators_def)
  have apply_fails:
    "util_RunCmdOut ?C3 [''kustomize'', ''build'', KustomizePath ?k] (world ?s) = (Inr ''rendered'', Suc 0)
     \<and> ManifestList_Append ?C3 [] ''rendered'' = [''rendered''] \<and> [''rendered''] \<noteq> []
     \<and> ManifestList_ReplaceImages ?C3 [''rendered''] [''image''] = Inr [''replaced'']
     \<and> kubectl_Apply ?C3 [''replaced''] (Suc 0) = (Inl (Basic ''forbidden''), Suc (Suc 0))"
    by (simp add: fixed_collaborators_def)
  obtain err1 where one: "Deploy ?C1 ?k [''image''] ?s =
      (([], Some err1), \<lparr>world = Suc 0, calls = calls ?s @ [Call_RunCmdOut [''kustomize'', ''build'', KustomizePath ?k]]\<rparr>)"
    using deploy_stage_failure_aborts [where C = ?C1 and k = ?k and s = ?s and builds = "[''image'']",
        THEN conjunct1, THEN mp, OF render_fails] ..
  obtain err2 where two: "Deploy ?C2 ?k [''image''] ?s =
      (([], Some err2), \<lparr>world = Suc 0, calls = calls ?s @ [Call_RunCmdOut [''kustomize'', ''build'', KustomizePath ?k],
          Call_ReplaceImages [''rendered'']]\<rparr>)"
    using deploy_stage_failure_aborts [where C = ?C2 and k = ?k and s = ?s and builds = "[''image'']",
        THEN conjunct2, THEN conjunct1, THEN mp, OF replace_fails] ..
  obtain err3 where three: "Deploy ?C3 ?k [''image''] ?s =
      (([], Some err3), \<lparr>world = Suc (Suc 0), calls = calls ?s @ [Call_RunCmdOut [''kustomize'', ''build'', KustomizePath ?k],
          Call_ReplaceImages [''rendered''], Call_Apply [''replaced'']]\<rparr>)"
    using deploy_stage_failure_aborts [where C = ?C3 and k = ?k and s = ?s and builds = "[''image'']",
        THEN conjunct2, THEN conjunct2, THEN mp, OF apply_fails] ..
  have "err1 = Wrapped (Wrapped (Basic ''exit status 1'') ''kustomize build'') ''reading manifests''"
    using one by (simp add: Deploy_def readManifests_def invoked_def fixed_collaborators_def)
  moreover have "err2 = Wrapped (Basic ''bad manifest'') ''replacing images in manifests''"
    using two by (simp add: Deploy_def readManifests_def invoked_def fixed_collaborators_def)
  moreover have "err3 = Wrapped (Basic ''forbidden'') ''apply''"
    using three by (simp add: Deploy_def readManifests_def invoked_def fixed_collaborators_def)
  ultimately show ?thesis
    using one two three by simp
qed

text \<open>
  C8. When rendering fails, \<^verbatim>\<open>Cleanup\<close> returns the wrapped error and delete is not invoked.
  When rendering succeeds, delete receives the rendered manifests as they are, empty or
  not, and image replacement is not invoked; a delete failure comes back wrapped, and
  success is a nil error.
\<close>

theorem cleanup_renders_then_deletes:
  "(util_RunCmdOut C [''kustomize'', ''build'', KustomizePath k] (world s) = (Inl e, w) \<longrightarrow>
      Cleanup C k s =
        (Some (Wrapped (Wrapped e ''kustomize build'') ''reading manifests''),
         \<lparr>world = w, calls = calls s @ [Call_RunCmdOut [''kustomize'', ''build'', KustomizePath k]]\<rparr>))
   \<and> (util_RunCmdOut C [''kustomize'', ''build'', KustomizePath k] (world s) = (Inr out, w)
       \<and> kubectl_Delete C (ManifestList_Append C [] out) w = (Some e, w') \<longrightarrow>
      Cleanup C k s =
        (Some (Wrapped e ''delete''),
         \<lparr>world = w', calls = calls s @ [Call_RunCmdOut [''kustomize'', ''build'', KustomizePath k],
                                           Call_Delete (ManifestList_Append C [] out)]\<rparr>))
   \<and> (util_RunCmdOut C [''kustomize'', ''build'', KustomizePath k] (world s) = (Inr out, w)
       \<and> kubectl_Delete C (ManifestList_Append C [] out) w = (None, w') \<longrightarrow>
      Cleanup C k s =
        (None,
         \<lparr>world = w', calls = calls s @ [Call_RunCmdOut [''kustomize'', ''build'', KustomizePath k],
                                           Call_Delete (ManifestList_Append C [] out)]\<rparr>))"
proof (intro conjI impI)
  assume "util_RunCmdOut C [''kustomize'', ''build'', KustomizePath k] (world s) = (Inl e, w)"
  then show "Cleanup C k s =
        (Some (Wrapped (Wrapped e ''kustomize build'') ''reading manifests''),
         \<lparr>world = w, calls = calls s @ [Call_RunCmdOut [''kustomize'', ''build'', KustomizePath k]]\<rparr>)"
    by (rule Cleanup_render_failure)
next
  assume "util_RunCmdOut C [''kustomize'', ''build'', KustomizePath k] (world s) = (Inr out, w)
       \<and> kubectl_Delete C (ManifestList_Append C [] out) w = (Some e, w')"
  then show "Cleanup C k s =
        (Some (Wrapped e ''delete''),
         \<lparr>world = w', calls = calls s @ [Call_RunCmdOut [''kustomize'', ''build'', KustomizePath k],
                                           Call_Delete (ManifestList_Append C [] out)]\<rparr>)"
    by (elim conjE) (rule Cleanup_delete_failure)
next
  assume "util_RunCmdOut C [''kustomize'', ''build'', KustomizePath k] (world s) = (Inr out, w)
       \<and> kubectl_Delete C (ManifestList_Append C [] out) w = (None, w')"
  then show "Cleanup C k s =
        (None,
         \<lparr>world = w', calls = calls s @ [Call_RunCmdOut [''kustomize'', ''build'', KustomizePath k],
                                           Call_Delete (ManifestList_Append C [] out)]\<rparr>)"
    by (elim conjE) (rule Cleanup_deleted)
qed

theorem cleanup_renders_then_deletes_witness:
  "Cleanup (fixed_collaborators (Inl (Basic ''exit status 1'')) (Inr []) (Inr []) None)
      \<lparr>KustomizePath = ''app''\<rparr> \<lparr>world = 0, calls = []\<rparr> =
     (Some (Wrapped (Wrapped (Basic ''exit status 1'') ''kustomize build'') ''reading manifests''),
      \<lparr>world = Suc 0, calls = [Call_RunCmdOut [''kustomize'', ''build'', ''app'']]\<rparr>)
   \<and> Cleanup (fixed_collaborators (Inr ''rendered'') (Inr []) (Inr []) (Some (Basic ''forbidden'')))
      \<lparr>KustomizePath = ''app''\<rparr> \<lparr>world = 0, calls = []\<rparr> =
     (Some (Wrapped (Basic ''forbidden'') ''delete''),
      \<lparr>world = Suc (Suc 0), calls = [Call_RunCmdOut [''kustomize'', ''build'', ''app''],
                                       Call_Delete [''rendered'']]\<rparr>)
   \<and> Cleanup (fixed_collaborators (Inr []) (Inr []) (Inr []) None)
      \<lparr>KustomizePath = ''app''\<rparr> \<lparr>world = 0, calls = []\<rparr> =
     (None,
      \<lparr>world = Suc (Suc 0), calls = [Call_RunCmdOut [''kustomize'', ''build'', ''app''],
                                       Call_Delete []]\<rparr>)"
proof -
  let ?k = "\<lparr>KustomizePath = ''app''\<rparr>"
  let ?s = "\<lparr>world = 0 :: nat, calls = []\<rparr>"
  let ?C1 = "fixed_collaborators (Inl (Basic ''exit status 1'')) (Inr []) (Inr []) None"
  let ?C2 = "fixed_collaborators (Inr ''rendered'') (Inr []) (Inr []) (Some (Basic ''forbidden''))"
  let ?C3 = "fixed_collaborators (Inr []) (Inr []) (Inr []) None"
  have render_fails:
    "util_RunCmdOut ?C1 [''kustomize'', ''build'', KustomizePath ?k] (world ?s) = (Inl (Basic ''exit status 1''), Suc 0)"
    by (simp add: fixed_collaborators_def)
  have delete_fails:
    "util_RunCmdOut ?C2 [''kustomize'', ''build'', KustomizePath ?k] (world ?s) = (Inr ''rendered'', Suc 0)
     \<and> kubectl_Delete ?C2 (ManifestList_Append ?C2 [] ''rendered'') (Suc 0) = (Some (Basic ''forbidden''), Suc (Suc 0))"
    by (simp add: fixed_collaborators_def)
  have deletes_nothing:
    "util_RunCmdOut ?C3 [''kustomize'', ''build'', KustomizePath ?k] (world ?s) = (Inr [], Suc 0)
     \<and> kubectl_Delete ?C3 (ManifestList_Append ?C3 [] []) (Suc 0) = (None, Suc (Suc 0))"
    by (simp add: fixed_collaborators_def)
  note one = cleanup_renders_then_deletes [where C = ?C1 and k = ?k and s = ?s, THEN conjunct1, THEN mp, OF render_fails]
  note two = cleanup_renders_then_deletes [where C = ?C2 and k = ?k and s = ?s,
      THEN conjunct2, THEN conjunct1, THEN mp, OF delete_fails]
  note three = cleanup_renders_then_deletes [where C = ?C3 and k = ?k and s = ?s,
      THEN conjunct2, THEN conjunct2, THEN mp, OF deletes_nothing]
  have "ManifestList_Append ?C2 [] ''rendered'' = [''rendered'']"
    and "ManifestList_Append ?C3 [] [] = []"
    by (simp_all add: fixed_collaborators_def)
  with one two three show ?thesis by simp
qed

text \<open>
  C7, as the code has it. A failing stage of the pipeline returns the collaborator's error
  wrapped with the name of the stage: the renderer's with \<^verbatim>\<open>kustomize build\<close> and then, in
  \<^verbatim>\<open>Deploy\<close> and \<^verbatim>\<open>Cleanup\<close> alike, with \<^verbatim>\<open>reading manifests\<close>; image replacement's with
  \<^verbatim>\<open>replacing images in manifests\<close>; apply's with \<^verbatim>\<open>apply\<close>; delete's with \<^verbatim>\<open>delete\<close>.
  The resolver wraps nothing: the open error and the decode error are returned as the
  operating system and the decoder raised them.
\<close>

theorem pipeline_errors_wrapped_resolver_errors_plain:
  "(util_RunCmdOut C [''kustomize'', ''build'', KustomizePath k] (world s) = (Inl e, w) \<longrightarrow>
      snd (fst (Deploy C k builds s)) = Some (Wrapped (Wrapped e ''kustomize build'') ''reading manifests'')
      \<and> fst (Cleanup C k s) = Some (Wrapped (Wrapped e ''kustomize build'') ''reading manifests''))
   \<and> (util_RunCmdOut C [''kustomize'', ''build'', KustomizePath k] (world s) = (Inr out, w)
       \<and> ManifestList_Append C [] out = manifests \<and> manifests \<noteq> []
       \<and> ManifestList_ReplaceImages C manifests builds = Inl e \<longrightarrow>
      snd (fst (Deploy C k builds s)) = Some (Wrapped e ''replacing images in manifests''))
   \<and> (util_RunCmdOut C [''kustomize'', ''build'', KustomizePath k] (world s) = (Inr out, w)
       \<and> ManifestList_Append C [] out = manifests \<and> manifests \<noteq> []
       \<and> ManifestList_ReplaceImages C manifests builds = Inr replaced
       \<and> kubectl_Apply C replaced w = (Inl e, w') \<longrightarrow>
      snd (fst (Deploy C k builds s)) = Some (Wrapped e ''apply''))
   \<and> (util_RunCmdOut C [''kustomize'', ''build'', KustomizePath k] (world s) = (Inr out, w)
       \<and> kubectl_Delete C (ManifestList_Append C [] out) w = (Some e, w') \<longrightarrow>
      fst (Cleanup C k s) = Some (Wrapped e ''delete''))
   \<and> (os_Open fs (filepath_Join fs dir ''kustomization.yaml'') = Inl e \<longrightarrow>
      dependenciesForKustomization (Suc n) fs dir =
        Some ([filepath_Join fs dir ''kustomization.yaml''], Some e))
   \<and> (os_Open fs (filepath_Join fs dir ''kustomization.yaml'') = Inr file
       \<and> yaml_Decode fs file = Inl e \<longrightarrow>
      dependenciesForKustomization (Suc n) fs dir =
        Some ([filepath_Join fs dir ''kustomization.yaml''], Some e))"
proof (intro conjI impI)
  assume render: "util_RunCmdOut C [''kustomize'', ''build'', KustomizePath k] (world s) = (Inl e, w)"
  show "snd (fst (Deploy C k builds s)) = Some (Wrapped (Wrapped e ''kustomize build'') ''reading manifests'')"
    by (simp add: Deploy_render_failure [OF render])
  show "fst (Cleanup C k s) = Some (Wrapped (Wrapped e ''kustomize build'') ''reading manifests'')"
    by (simp add: Cleanup_render_failure [OF render])
next
  assume "util_RunCmdOut C [''kustomize'', ''build'', KustomizePath k] (world s) = (Inr out, w)
       \<and> ManifestList_Append C [] out = manifests \<and> manifests \<noteq> []
       \<and> ManifestList_ReplaceImages C manifests builds = Inl e"
  then have "Deploy C k builds s =
        (([], Some (Wrapped e ''replacing images in manifests'')),
         \<lparr>world = w, calls = calls s @ [Call_RunCmdOut [''kustomize'', ''build'', KustomizePath k],
                                          Call_ReplaceImages manifests]\<rparr>)"
    by (elim conjE) (rule Deploy_replace_failure)
  then show "snd (fst (Deploy C k builds s)) = Some (Wrapped e ''replacing images in manifests'')"
    by simp
next
  assume "util_RunCmdOut C [''kustomize'', ''build'', KustomizePath k] (world s) = (Inr out, w)
       \<and> ManifestList_Append C [] out = manifests \<and> manifests \<noteq> []
       \<and> ManifestList_ReplaceImages C manifests builds = Inr replaced
       \<and> kubectl_Apply C replaced w = (Inl e, w')"
  then have "Deploy C k builds s =
        (([], Some (Wrapped e ''apply'')),
         \<lparr>world = w', calls = calls s @ [Call_RunCmdOut [''kustomize'', ''build'', KustomizePath k],
                                           Call_ReplaceImages manifests, Call_Apply replaced]\<rparr>)"
    by (elim conjE) (rule Deploy_apply_failure)
  then show "snd (fst (Deploy C k builds s)) = Some (Wrapped e ''apply'')"
    by simp
next
  assume "util_RunCmdOut C [''kustomize'', ''build'', KustomizePath k] (world s) = (Inr out, w)
       \<and> kubectl_Delete C (ManifestList_Append C [] out) w = (Some e, w')"
  then have "Cleanup C k s =
        (Some (Wrapped e ''delete''),
         \<lparr>world = w', calls = calls s @ [Call_RunCmdOut [''kustomize'', ''build'', KustomizePath k],
                                           Call_Delete (ManifestList_Append C [] out)]\<rparr>)"
    by (elim conjE) (rule Cleanup_delete_failure)
  then show "fst (Cleanup C k s) = Some (Wrapped e ''delete'')"
    by simp
next
  assume "os_Open fs (filepath_Join fs dir ''kustomization.yaml'') = Inl e"
  then show "dependenciesForKustomization (Suc n) fs dir =
        Some ([filepath_Join fs dir ''kustomization.yaml''], Some e)"
    by simp
next
  assume "os_Open fs (filepath_Join fs dir ''kustomization.yaml'') = Inr file
       \<and> yaml_Decode fs file = Inl e"
  then show "dependenciesForKustomization (Suc n) fs dir =
        Some ([filepath_Join fs dir ''kustomization.yaml''], Some e)"
    by simp
qed

theorem pipeline_errors_wrapped_resolver_errors_plain_witness:
  "snd (fst (Deploy (fixed_collaborators (Inl (Basic ''exit status 1'')) (Inr []) (Inr []) None)
      \<lparr>KustomizePath = ''app''\<rparr> [''image''] \<lparr>world = 0, calls = []\<rparr>)) =
     Some (Wrapped (Wrapped (Basic ''exit status 1'') ''kustomize build'') ''reading manifests'')
   \<and> fst (Cleanup (fixed_collaborators (Inl (Basic ''exit status 1'')) (Inr []) (Inr []) None)
      \<lparr>KustomizePath = ''app''\<rparr> \<lparr>world = 0, calls = []\<rparr>) =
     Some (Wrapped (Wrapped (Basic ''exit status 1'') ''kustomize build'') ''reading manifests'')
   \<and> snd (fst (Deploy (fixed_collaborators (Inr ''rendered'') (Inl (Basic ''bad manifest'')) (Inr []) None)
      \<lparr>KustomizePath = ''app''\<rparr> [''image''] \<lparr>world = 0, calls = []\<rparr>)) =
     Some (Wrapped (Basic ''bad manifest'') ''replacing images in manifests'')
   \<and> snd (fst (Deploy (fixed_collaborators (Inr ''rendered'') (Inr [''replaced'']) (Inl (Basic ''forbidden'')) None)
      \<lparr>KustomizePath = ''app''\<rparr> [''image''] \<lparr>world = 0, calls = []\<rparr>)) =
     Some (Wrapped (Basic ''forbidden'') ''apply'')
   \<and> fst (Cleanup (fixed_collaborators (Inr ''rendered'') (Inr []) (Inr []) (Some (Basic ''forbidden'')))
      \<lparr>KustomizePath = ''app''\<rparr> \<lparr>world = 0, calls = []\<rparr>) =
     Some (Wrapped (Basic ''forbidden'') ''delete'')
   \<and> dependenciesForKustomization (Suc 0) example_fs ''gone'' =
     Some ([''gone/kustomization.yaml''], Some (Basic ''no such file or directory''))
   \<and> dependenciesForKustomization (Suc 0) example_fs ''bad'' =
     Some ([''bad/kustomization.yaml''], Some (Basic ''yaml: unmarshal errors''))"
proof -
  let ?k = "\<lparr>KustomizePath = ''app''\<rparr>"
  let ?s = "\<lparr>world = 0 :: nat, calls = []\<rparr>"
  let ?C1 = "fixed_collaborators (Inl (Basic ''exit status 1'')) (Inr []) (Inr []) None"
  let ?C2 = "fixed_collaborators (Inr ''rendered'') (Inl (Basic ''bad manifest'')) (Inr []) None"
  let ?C3 = "fixed_collaborators (Inr ''rendered'') (Inr [''replaced'']) (Inl (Basic ''forbidden'')) None"
  let ?C4 = "fixed_collaborators (Inr ''rendered'') (Inr []) (Inr []) (Some (Basic ''forbidden''))"
  have render_fails:
    "util_RunCmdOut ?C1 [''kustomize'', ''build'', KustomizePath ?k] (world ?s) = (Inl (Basic ''exit status 1''), Suc 0)"
    by (simp add: fixed_collaborators_def)
  have replace_fails:
    "util_RunCmdOut ?C2 [''kustomize'', ''build'', KustomizePath ?k] (world ?s) = (Inr ''rendered'', Suc 0)
     \<and> ManifestList_Append ?C2 [] ''rendered'' = [''rendered''] \<and> [''rendered''] \<noteq> []
     \<and> ManifestList_ReplaceImages ?C2 [''rendered''] [''image''] = Inl (Basic ''bad manifest'')"
    by (simp add: fixed_collaborators_def)
  have apply_fails:
    "util_RunCmdOut ?C3 [''kustomize'', ''build'', KustomizePath ?k] (world ?s) = (Inr ''rendered'', Suc 0)
     \<and> ManifestList_Append ?C3 [] ''rendered'' = [''rendered''] \<and> [''rendered''] \<noteq> []
     \<and> ManifestList_ReplaceImages ?C3 [''rendered''] [''image''] = Inr [''replaced'']
     \<and> kubectl_Apply ?C3 [''replaced''] (Suc 0) = (Inl (Basic ''forbidden''), Suc (Suc 0))"
    by (simp add: fixed_collaborators_def)
  have delete_fails:
    "util_RunCmdOut ?C4 [''kustomize'', ''build'', KustomizePath ?k] (world ?s) = (Inr ''rendered'', Suc 0)
     \<and> kubectl_Delete ?C4 (ManifestList_Append ?C4 [] ''rendered'') (Suc 0) = (Some (Basic ''forbidden''), Suc (Suc 0))"
    by (simp add: fixed_collaborators_def)
  have missing: "os_Open example_fs (filepath_Join example_fs ''gone'' ''kustomization.yaml'')
      = Inl (Basic ''no such file or directory'')"
    by (simp add: example_defs)
  have malformed: "os_Open example_fs (filepath_Join example_fs ''bad'' ''kustomization.yaml'')
      = Inr (Inl (Basic ''yaml: unmarshal errors''))
    \<and> yaml_Decode example_fs (Inl (Basic ''yaml: unmarshal errors'')) = Inl (Basic ''yaml: unmarshal errors'')"
    by (simp add: example_defs)
  note at_render = pipeline_errors_wrapped_resolver_errors_plain [where C = ?C1 and k = ?k and s = ?s and builds = "[''image'']",
      THEN conjunct1, THEN mp, OF render_fails]
  note at_replace = pipeline_errors_wrapped_resolver_errors_plain [where C = ?C2 and k = ?k and s = ?s and builds = "[''image'']",
      THEN conjunct2, THEN conjunct1, THEN mp, OF replace_fails]
  note at_apply = pipeline_errors_wrapped_resolver_errors_plain [where C = ?C3 and k = ?k and s = ?s and builds = "[''image'']",
      THEN conjunct2, THEN conjunct2, THEN conjunct1, THEN mp, OF apply_fails]
  note at_delete = pipeline_errors_wrapped_resolver_errors_plain [where C = ?C4 and k = ?k and s = ?s,
      THEN conjunct2, THEN conjunct2, THEN conjunct2, THEN conjunct1, THEN mp, OF delete_fails]
  note at_opened = pipeline_errors_wrapped_resolver_errors_plain [where fs = example_fs and dir = "''gone''" and n = 0,
      THEN conjunct2, THEN conjunct2, THEN conjunct2, THEN conjunct2, THEN conjunct1, THEN mp, OF missing]
  note at_decoded = pipeline_errors_wrapped_resolver_errors_plain [where fs = example_fs and dir = "''bad''" and n = 0,
      THEN conjunct2, THEN conjunct2, THEN conjunct2, THEN conjunct2, THEN conjunct2, THEN mp, OF malformed]
  have paths: "filepath_Join example_fs ''gone'' ''kustomization.yaml'' = ''gone/kustomization.yaml''"
    "filepath_Join example_fs ''bad'' ''kustomization.yaml'' = ''bad/kustomization.yaml''"
    by (simp_all add: example_defs)
  from at_render at_replace at_apply at_delete at_opened at_decoded show ?thesis
    unfolding paths by simp
qed

text \<open>
  The resolver's errors are not wrapped: for a missing definition file, and for one that
  does not parse, the error returned is the collaborator's own.
\<close>

theorem resolver_errors_not_wrapped_counterexample:
  "dependenciesForKustomization (Suc 0) example_fs ''gone'' =
     Some ([''gone/kustomization.yaml''], Some (Basic ''no such file or directory''))
   \<and> \<not> is_wrapped (Basic ''no such file or directory'')
   \<and> dependenciesForKustomization (Suc 0) example_fs ''bad'' =
     Some ([''bad/kustomization.yaml''], Some (Basic ''yaml: unmarshal errors''))
   \<and> \<not> is_wrapped (Basic ''yaml: unmarshal errors'')"
  by (simp add: example_defs)

end
